theory Spec2Isabelle
  imports Main "HOL-Library.Word"
begin

section \<open>JavaScript strings\<close>

text \<open>
  A JavaScript string is a sequence of UTF-16 code units. The regular expressions of
  \<^verbatim>\<open>main.js\<close> carry no \<^verbatim>\<open>u\<close> flag, so they too work on code units.
\<close>

type_synonym jschar = "16 word"
type_synonym jsstring = "jschar list"

text \<open>A string literal of the source (ASCII only), as code units.\<close>

definition js :: "string \<Rightarrow> jsstring" where
  "js s = map of_char s"

text \<open>The class \<^verbatim>\<open>\d\<close>: the ten ASCII digits.\<close>

definition is_digit :: "jschar \<Rightarrow> bool" where
  "is_digit c = (0x30 \<le> c \<and> c \<le> 0x39)"

text \<open>
  The class \<^verbatim>\<open>\s\<close>, which is also what \<^verbatim>\<open>String.prototype.trim\<close> strips:
  ECMAScript's WhiteSpace and LineTerminator code points (tab, line feed, vertical tab,
  form feed, carriage return, space, no-break space, U+1680, U+2000 to U+200A, U+2028,
  U+2029, U+202F, U+205F, U+3000, U+FEFF).
\<close>

definition is_space :: "jschar \<Rightarrow> bool" where
  "is_space c =
     (c = 0x09 \<or> c = 0x0A \<or> c = 0x0B \<or> c = 0x0C \<or> c = 0x0D \<or> c = 0x20 \<or> c = 0xA0
      \<or> c = 0x1680 \<or> (0x2000 \<le> c \<and> c \<le> 0x200A) \<or> c = 0x2028 \<or> c = 0x2029
      \<or> c = 0x202F \<or> c = 0x205F \<or> c = 0x3000 \<or> c = 0xFEFF)"

text \<open>\<^verbatim>\<open>s.trim()\<close>\<close>

definition trim :: "jsstring \<Rightarrow> jsstring" where
  "trim s = rev (dropWhile is_space (rev (dropWhile is_space s)))"

text \<open>
  \<^verbatim>\<open>s.slice(b, e)\<close> and \<^verbatim>\<open>s.slice(b)\<close> for the non-negative constant indices the source
  uses; both clamp at the end of the string.
\<close>

definition slice :: "nat \<Rightarrow> nat \<Rightarrow> jsstring \<Rightarrow> jsstring" where
  "slice b e s = take (e - b) (drop b s)"

definition slice_from :: "nat \<Rightarrow> jsstring \<Rightarrow> jsstring" where
  "slice_from b s = drop b s"

text \<open>\<^verbatim>\<open>s.replace(/\D/g, '')\<close>: every code unit that is not a digit is removed.\<close>

definition strip_non_digits :: "jsstring \<Rightarrow> jsstring" where
  "strip_non_digits s = filter is_digit s"

text \<open>A boolean handed to \<^verbatim>\<open>setAttribute\<close> is stored as its string.\<close>

definition js_bool :: "bool \<Rightarrow> jsstring" where
  "js_bool b = (if b then js ''true'' else js ''false'')"


section \<open>Regular expressions\<close>

text \<open>
  The two patterns of \<^verbatim>\<open>validateField\<close> are anchored at both ends and are
  concatenations of character classes, each taken once or one-or-more times
  (\<^verbatim>\<open>+\<close>). \<open>regex_test\<close> is the backtracking matcher behind
  \<^verbatim>\<open>RegExp.prototype.test\<close> on such a pattern: \<^verbatim>\<open>+\<close> is greedy, so the longer
  repetition is tried before the shorter one.
\<close>

datatype quantifier = Once | OneOrMore

type_synonym regex = "((jschar \<Rightarrow> bool) \<times> quantifier) list"

fun regex_test :: "regex \<Rightarrow> jsstring \<Rightarrow> bool" where
  "regex_test [] s = (s = [])"
| "regex_test ((p, q) # r) [] = False"
| "regex_test ((p, Once) # r) (c # cs) = (p c \<and> regex_test r cs)"
| "regex_test ((p, OneOrMore) # r) (c # cs) =
     (p c \<and> (regex_test ((p, OneOrMore) # r) cs \<or> regex_test r cs))"

text \<open>\<^verbatim>\<open>[^\s@]\<close>\<close>

definition not_space_at :: "jschar \<Rightarrow> bool" where
  "not_space_at c = (\<not> (is_space c \<or> c = of_char CHR ''@''))"

text \<open>\<^verbatim>\<open>/^[^\s@]+@[^\s@]+\.[^\s@]+$/\<close>\<close>

definition emailRegex :: regex where
  "emailRegex =
     [(not_space_at, OneOrMore), ((\<lambda>c. c = of_char CHR ''@''), Once),
      (not_space_at, OneOrMore), ((\<lambda>c. c = of_char CHR ''.''), Once),
      (not_space_at, OneOrMore)]"

text \<open>\<^verbatim>\<open>[\d\s\-\(\)\+]\<close>\<close>

definition phone_char :: "jschar \<Rightarrow> bool" where
  "phone_char c =
     (is_digit c \<or> is_space c \<or> c = of_char CHR ''-'' \<or> c = of_char CHR ''(''
      \<or> c = of_char CHR '')'' \<or> c = of_char CHR ''+'')"

text \<open>\<^verbatim>\<open>/^[\d\s\-\(\)\+]+$/\<close>\<close>

definition phoneRegex :: regex where
  "phoneRegex = [(phone_char, OneOrMore)]"


section \<open>Form fields and their error display\<close>

text \<open>
  What the validation code reads and writes of a field (\<^verbatim>\<open>input\<close>, \<^verbatim>\<open>textarea\<close> or
  \<^verbatim>\<open>select\<close>): its \<^verbatim>\<open>value\<close>, its \<^verbatim>\<open>type\<close>, the presence of the
  \<^verbatim>\<open>required\<close> attribute, whether its class list holds \<^verbatim>\<open>error\<close>, and its
  \<^verbatim>\<open>aria-describedby\<close> attribute (\<open>None\<close> when the attribute is absent).
\<close>

record input_el =
  input_value :: jsstring
  input_type :: jsstring
  required :: bool
  has_error :: bool
  describedby :: "jsstring option"

text \<open>An error-display element: its \<^verbatim>\<open>textContent\<close> and its \<^verbatim>\<open>style.display\<close>.\<close>

record error_el =
  textContent :: jsstring
  display :: jsstring

text \<open>
  \<^verbatim>\<open>document.getElementById\<close>, restricted to the elements that serve as error
  display: a map from ids to elements. The fields themselves are separate objects, so
  a write to an error-display element changes no field.
\<close>

type_synonym document = "jsstring \<rightharpoonup> error_el"

text \<open>
  \<^verbatim>\<open>errorId ? document.getElementById(errorId) : null\<close>: a missing attribute and the
  empty string are both falsy; otherwise the id is looked up. The result is the id
  together with the element found.
\<close>

definition errorEl :: "input_el \<Rightarrow> document \<Rightarrow> (jsstring \<times> error_el) option" where
  "errorEl input doc =
     (case describedby input of
        None \<Rightarrow> None
      | Some errorId \<Rightarrow>
          if errorId = [] then None
          else (case doc errorId of None \<Rightarrow> None | Some el \<Rightarrow> Some (errorId, el)))"

definition showError :: "input_el \<Rightarrow> jsstring \<Rightarrow> document \<Rightarrow> input_el \<times> document" where
  "showError input message doc =
     (let input' = input\<lparr>has_error := True\<rparr>
      in case errorEl input doc of
           None \<Rightarrow> (input', doc)
         | Some (errorId, el) \<Rightarrow>
             (input', doc(errorId \<mapsto> el\<lparr>textContent := message, display := js ''block''\<rparr>)))"

definition clearError :: "input_el \<Rightarrow> document \<Rightarrow> input_el \<times> document" where
  "clearError input doc =
     (let input' = input\<lparr>has_error := False\<rparr>
      in case errorEl input doc of
           None \<Rightarrow> (input', doc)
         | Some (errorId, el) \<Rightarrow>
             (input', doc(errorId \<mapsto> el\<lparr>textContent := [], display := js ''none''\<rparr>)))"

text \<open>
  \<^verbatim>\<open>validateField\<close> returns its boolean together with the field and the document as it
  leaves them. A non-empty string is truthy, so \<^verbatim>\<open>!value\<close> is \<open>v = []\<close>. When the
  e-mail test passes, control falls through to the phone test, as in the source.
\<close>

definition validateField :: "input_el \<Rightarrow> document \<Rightarrow> bool \<times> input_el \<times> document" where
  "validateField input doc =
     (let v = trim (input_value input);
          t = input_type input;
          r = required input;
          (input1, doc1) = clearError input doc
      in if r \<and> v = [] then
           (False, showError input1 (js ''This field is required'') doc1)
         else if t = js ''email'' \<and> v \<noteq> [] \<and> \<not> regex_test emailRegex v then
           (False, showError input1 (js ''Please enter a valid email address'') doc1)
         else if t = js ''tel'' \<and> v \<noteq> []
                 \<and> (\<not> regex_test phoneRegex v \<or> length (strip_non_digits v) < 10) then
           (False, showError input1 (js ''Please enter a valid phone number'') doc1)
         else (True, input1, doc1))"


section \<open>Form submission\<close>

text \<open>
  The descendants of a validated form, in document order. A descendant is a field
  (\<^verbatim>\<open>input\<close>, \<^verbatim>\<open>textarea\<close> or \<^verbatim>\<open>select\<close>) or some other element; of the latter
  the submit listener reads only whether its class list holds \<^verbatim>\<open>error\<close>, which is the
  argument of \<open>OtherEl\<close>.
\<close>

datatype form_el = FieldEl input_el | OtherEl bool

text \<open>Whether an element matches the selector \<^verbatim>\<open>.error\<close>.\<close>

fun has_class_error :: "form_el \<Rightarrow> bool" where
  "has_class_error (FieldEl input) = has_error input"
| "has_class_error (OtherEl error) = error"

text \<open>\<^verbatim>\<open>form.querySelectorAll('input, textarea, select')\<close>: the fields of the form.\<close>

fun inputs_of :: "form_el list \<Rightarrow> input_el list" where
  "inputs_of [] = []"
| "inputs_of (FieldEl input # rest) = input # inputs_of rest"
| "inputs_of (OtherEl error # rest) = inputs_of rest"

text \<open>
  The loop \<^verbatim>\<open>inputs.forEach(input => { if (!validateField(input)) isValid = false })\<close>,
  with the flag \<open>isValid\<close> as accumulator. It visits the fields in document order; the
  other descendants are not among \<open>inputs\<close> and stay as they are.
\<close>

fun validate_inputs ::
  "form_el list \<Rightarrow> document \<Rightarrow> bool \<Rightarrow> bool \<times> form_el list \<times> document" where
  "validate_inputs [] doc isValid = (isValid, [], doc)"
| "validate_inputs (OtherEl error # rest) doc isValid =
     (case validate_inputs rest doc isValid of
        (isValid', rest', doc') \<Rightarrow> (isValid', OtherEl error # rest', doc'))"
| "validate_inputs (FieldEl input # rest) doc isValid =
     (case validateField input doc of
        (ok, input', doc') \<Rightarrow>
          (case validate_inputs rest doc' (if \<not> ok then False else isValid) of
             (isValid', rest', doc'') \<Rightarrow> (isValid', FieldEl input' # rest', doc'')))"

text \<open>
  \<^verbatim>\<open>form.querySelector('.error')\<close>: the first descendant of the form, in document
  order and of whatever kind, whose class list holds \<^verbatim>\<open>error\<close>. The result is its
  position among the descendants.
\<close>

fun querySelector_error :: "form_el list \<Rightarrow> nat option" where
  "querySelector_error [] = None"
| "querySelector_error (el # els) =
     (if has_class_error el then Some 0 else map_option Suc (querySelector_error els))"

text \<open>
  What a submit event leaves behind: the descendants of the form, the document, whether
  \<^verbatim>\<open>preventDefault\<close> was called, and the position of the descendant \<^verbatim>\<open>focus\<close> was
  called on (\<open>None\<close> when it was not called).
\<close>

record submit_result =
  form_after :: "form_el list"
  doc_after :: document
  defaultPrevented :: bool
  focused :: "nat option"

definition on_submit :: "form_el list \<Rightarrow> document \<Rightarrow> submit_result" where
  "on_submit form doc =
     (case validate_inputs form doc True of
        (isValid, form', doc') \<Rightarrow>
          if \<not> isValid then
            \<lparr>form_after = form', doc_after = doc', defaultPrevented = True,
             focused = querySelector_error form'\<rparr>
          else
            \<lparr>form_after = form', doc_after = doc', defaultPrevented = False,
             focused = None\<rparr>)"


section \<open>Phone formatter\<close>

definition formatPhone :: "input_el \<Rightarrow> input_el" where
  "formatPhone input =
     (let v = strip_non_digits (input_value input);
          v' = (if length v > 0 then
                  (if length v \<le> 3 then js ''('' @ v
                   else if length v \<le> 6 then
                     js ''('' @ slice 0 3 v @ js '') '' @ slice_from 3 v
                   else
                     js ''('' @ slice 0 3 v @ js '') '' @ slice 3 6 v @ js ''-''
                       @ slice 6 10 v)
                else v)
      in input\<lparr>input_value := v'\<rparr>)"


section \<open>FAQ accordions\<close>

text \<open>
  One \<^verbatim>\<open>.faq-item\<close>: the container it sits in (which the code never reads), whether
  its class list holds \<^verbatim>\<open>open\<close>, whether it has a \<^verbatim>\<open>.faq-question\<close> and a
  \<^verbatim>\<open>.faq-answer\<close> descendant, and the \<^verbatim>\<open>aria-expanded\<close> attribute of its question
  (\<open>None\<close> when absent). Items are not nested, so each question belongs to one item.
  The page is the list \<^verbatim>\<open>document.querySelectorAll('.faq-item')\<close>, in document order.
\<close>

record faq_item =
  container :: nat
  is_open :: bool
  has_question :: bool
  has_answer :: bool
  aria_expanded :: "jsstring option"

text \<open>
  Initialisation writes \<^verbatim>\<open>aria-expanded="false"\<close> on the question of every item that
  has both a question and an answer; the other items are skipped. (The generated ids
  and the remaining attributes take no part in what follows.)
\<close>

definition initFaqAccordions :: "faq_item list \<Rightarrow> faq_item list" where
  "initFaqAccordions faqItems =
     map (\<lambda>item. if \<not> has_question item \<or> \<not> has_answer item then item
                  else item\<lparr>aria_expanded := Some (js ''false'')\<rparr>) faqItems"

text \<open>
  The body of the inner \<^verbatim>\<open>forEach\<close> of the click listener, for one \<open>otherItem\<close> at
  position \<open>j\<close> when the clicked item is at position \<open>i\<close>. The optional call
  \<^verbatim>\<open>?.setAttribute\<close> does nothing when the item has no question.
\<close>

definition close_other :: "nat \<Rightarrow> nat \<times> faq_item \<Rightarrow> faq_item" where
  "close_other i = (\<lambda>(j, otherItem).
     if j \<noteq> i \<and> is_open otherItem then
       otherItem\<lparr>is_open := False,
                 aria_expanded := (if has_question otherItem then Some (js ''false'')
                                   else aria_expanded otherItem)\<rparr>
     else otherItem)"

text \<open>
  A click on the question of the item at position \<open>i\<close>. The listener exists only on
  items that had a question and an answer at initialisation; a click elsewhere runs
  no code of the accordion.
\<close>

definition faq_click :: "nat \<Rightarrow> faq_item list \<Rightarrow> faq_item list" where
  "faq_click i faqItems =
     (if i < length faqItems \<and> has_question (faqItems ! i) \<and> has_answer (faqItems ! i) then
        (let isOpen = is_open (faqItems ! i);
             closed = map (close_other i) (enumerate 0 faqItems);
             item = closed ! i
         in closed[i := item\<lparr>is_open := \<not> is_open item,
                              aria_expanded := Some (js_bool (\<not> isOpen))\<rparr>])
      else faqItems)"

text \<open>
  \<^verbatim>\<open>toggleFaq(button)\<close>, where \<open>button\<close> is the question of the item at position \<open>i\<close>;
  a position outside the page stands for a button with no enclosing \<^verbatim>\<open>.faq-item\<close>
  (\<^verbatim>\<open>closest\<close> returns null). When the item has no question, the button is an element
  the model does not track.
\<close>

definition toggleFaq :: "nat \<Rightarrow> faq_item list \<Rightarrow> faq_item list" where
  "toggleFaq i faqItems =
     (if i < length faqItems then
        (let item = (faqItems ! i)\<lparr>is_open := \<not> is_open (faqItems ! i)\<rparr>;
             isOpen = is_open item
         in faqItems[i := item\<lparr>aria_expanded := (if has_question item then Some (js_bool isOpen)
                                                  else aria_expanded item)\<rparr>])
      else faqItems)"

text \<open>The two ways a panel is activated, and a sequence of activations.\<close>

datatype activation = Click nat | ToggleFaq nat

fun activate :: "activation \<Rightarrow> faq_item list \<Rightarrow> faq_item list" where
  "activate (Click i) faqItems = faq_click i faqItems"
| "activate (ToggleFaq i) faqItems = toggleFaq i faqItems"

definition run :: "activation list \<Rightarrow> faq_item list \<Rightarrow> faq_item list" where
  "run acts faqItems = foldl (\<lambda>items a. activate a items) faqItems acts"

definition open_count :: "faq_item list \<Rightarrow> nat" where
  "open_count faqItems = length (filter is_open faqItems)"


section \<open>The shape of a formatted phone number\<close>

text \<open>
  A string fits a template when it follows it position by position, as far as the string
  goes: at an \<open>N\<close> of the template stands a digit, anywhere else the template's own
  character. A string that stops early fits too, which is what a number typed so far
  looks like.
\<close>

fun fits_template :: "string \<Rightarrow> jsstring \<Rightarrow> bool" where
  "fits_template t [] = True"
| "fits_template [] (c # cs) = False"
| "fits_template (t # ts) (c # cs) =
     ((if t = CHR ''N'' then is_digit c else c = of_char t) \<and> fits_template ts cs)"

definition phone_template :: string where
  "phone_template = ''(NNN) NNN-NNNN''"

text \<open>Inputs used as examples below.\<close>

definition typed_phone :: input_el where
  "typed_phone = \<lparr>input_value = js ''555.123.4567'', input_type = js ''tel'', required = False,
     has_error = False, describedby = None\<rparr>"

definition typed_letters :: input_el where
  "typed_letters = \<lparr>input_value = js ''abc'', input_type = js ''tel'', required = False,
     has_error = False, describedby = None\<rparr>"

definition typed_long :: input_el where
  "typed_long = \<lparr>input_value = js ''1 (555) 123-4567 ext 89'', input_type = js ''tel'',
     required = False, has_error = False, describedby = None\<rparr>"


section \<open>The validation rules as the specification words them\<close>

text \<open>
  The boolean \<^verbatim>\<open>validateField\<close> returns for a field. It is the same under every
  document (lemma \<open>validateField_fst\<close> below), so it is read off under the empty one.
\<close>

definition passes :: "input_el \<Rightarrow> bool" where
  "passes input = fst (validateField input Map.empty)"

text \<open>
  What the validation loop leaves of a descendant of the form: a field carries the error
  class exactly when it fails, another element is as it was.
\<close>

fun validated :: "form_el \<Rightarrow> form_el" where
  "validated (FieldEl input) = FieldEl (input\<lparr>has_error := \<not> passes input\<rparr>)"
| "validated (OtherEl error) = OtherEl error"

text \<open>
  The pattern \<^verbatim>\<open>local@domain.tld\<close>: the value is a local part, an at sign, a domain, a
  dot and a top-level part, none of them empty; no part holds whitespace or a further
  at sign, so that the value has exactly one. The domain part, which is all that follows
  the at sign, thereby holds at least one dot, with something on either side of it.
\<close>

definition spec_email_pattern :: "jsstring \<Rightarrow> bool" where
  "spec_email_pattern v =
     (\<exists>local domain tld.
        v = local @ js ''@'' @ domain @ js ''.'' @ tld
        \<and> local \<noteq> [] \<and> domain \<noteq> [] \<and> tld \<noteq> []
        \<and> list_all (\<lambda>c. \<not> is_space c \<and> c \<noteq> of_char CHR ''@'') (local @ domain @ tld))"

text \<open>
  The characters the claim lists for a phone number: digits, space, hyphen, parentheses
  and plus, the space being the character U+0020. A phone value is invalid, in the
  claim's words, when it holds a character outside that list or fewer than ten digits.
\<close>

definition spec_tel_char :: "jschar \<Rightarrow> bool" where
  "spec_tel_char c = (is_digit c \<or> c \<in> set (js '' -()+''))"

definition spec_tel_invalid :: "jsstring \<Rightarrow> bool" where
  "spec_tel_invalid v =
     (list_ex (\<lambda>c. \<not> spec_tel_char c) v \<or> length (filter is_digit v) < 10)"

text \<open>
  The amended list: every white-space character (the tab and the no-break space among
  them) stands where the claim has the space alone.
\<close>

definition amended_tel_char :: "jschar \<Rightarrow> bool" where
  "amended_tel_char c = (is_digit c \<or> is_space c \<or> c \<in> set (js ''-()+''))"

definition amended_tel_invalid :: "jsstring \<Rightarrow> bool" where
  "amended_tel_invalid v =
     (list_ex (\<lambda>c. \<not> amended_tel_char c) v \<or> length (filter is_digit v) < 10)"

text \<open>Fields and a document used as examples below.\<close>

definition named_field :: "string \<Rightarrow> input_el" where
  "named_field v = \<lparr>input_value = js v, input_type = js ''text'', required = True,
     has_error = False, describedby = Some (js ''name-error'')\<rparr>"

definition email_field :: "string \<Rightarrow> input_el" where
  "email_field v = \<lparr>input_value = js v, input_type = js ''email'', required = True,
     has_error = False, describedby = Some (js ''email-error'')\<rparr>"

definition tel_field :: "string \<Rightarrow> input_el" where
  "tel_field v = \<lparr>input_value = js v, input_type = js ''tel'', required = False,
     has_error = True, describedby = Some (js ''phone-error'')\<rparr>"

definition page_doc :: document where
  "page_doc = [js ''name-error'' \<mapsto> \<lparr>textContent = [], display = js ''none''\<rparr>,
               js ''email-error'' \<mapsto> \<lparr>textContent = js ''old'', display = js ''block''\<rparr>]"

text \<open>
  A form whose first descendant is an element of class \<^verbatim>\<open>error\<close> that is no field (a
  paragraph styled as an error note, say), followed by a name field that passes and an
  e-mail field that fails.
\<close>

definition form_with_note :: "form_el list" where
  "form_with_note = [OtherEl True, FieldEl (named_field ''Ada''), FieldEl (email_field ''foo@bar'')]"

text \<open>
  A document that holds the error display of the phone field, and a phone field whose
  three groups of digits are separated by tabs (code unit 9).
\<close>

definition phone_doc :: document where
  "phone_doc = [js ''phone-error'' \<mapsto> \<lparr>textContent = [], display = js ''none''\<rparr>]"

definition tabbed_phone :: input_el where
  "tabbed_phone =
     \<lparr>input_value = js ''555'' @ [0x09] @ js ''123'' @ [0x09] @ js ''4567'',
      input_type = js ''tel'', required = True, has_error = False,
      describedby = Some (js ''phone-error'')\<rparr>"


section \<open>Accordion listeners, click sequences and example pages\<close>

text \<open>
  The click listener of the item at position \<open>i\<close> exists when the item is on the page
  and had a question and an answer at initialisation.
\<close>

definition installed :: "nat \<Rightarrow> faq_item list \<Rightarrow> bool" where
  "installed i faqItems =
     (i < length faqItems \<and> has_question (faqItems ! i) \<and> has_answer (faqItems ! i))"

text \<open>A sequence of activations that are all clicks.\<close>

fun clicks_only :: "activation list \<Rightarrow> bool" where
  "clicks_only [] = True"
| "clicks_only (Click i # acts) = clicks_only acts"
| "clicks_only (ToggleFaq i # acts) = False"

text \<open>
  Two closed panels in one container, and two panels in two containers of which the
  first is open.
\<close>

definition two_panels :: "faq_item list" where
  "two_panels =
     [\<lparr>container = 0, is_open = False, has_question = True, has_answer = True, aria_expanded = None\<rparr>,
      \<lparr>container = 0, is_open = False, has_question = True, has_answer = True, aria_expanded = None\<rparr>]"

definition two_groups :: "faq_item list" where
  "two_groups =
     [\<lparr>container = 1, is_open = True, has_question = True, has_answer = True,
       aria_expanded = Some (js ''true'')\<rparr>,
      \<lparr>container = 2, is_open = False, has_question = True, has_answer = True,
       aria_expanded = Some (js ''false'')\<rparr>]"


section \<open>Properties of the phone formatter\<close>

lemma filter_digit_take: "filter is_digit (take n (filter is_digit s)) = take n (filter is_digit s)"
  by (rule filter_True) (auto dest: in_set_takeD)

lemma filter_digit_drop: "filter is_digit (drop n (filter is_digit s)) = drop n (filter is_digit s)"
  by (rule filter_True) (auto dest: in_set_dropD)

lemma filter_digit_take_drop:
  "filter is_digit (take n (drop m (filter is_digit s))) = take n (drop m (filter is_digit s))"
  by (rule filter_True) (auto dest!: in_set_takeD in_set_dropD)

lemma take_3_3_4: "take 3 v @ take 3 (drop 3 v) @ take 4 (drop 6 v) = take 10 v"
proof -
  have "take 10 v = take 3 v @ take 7 (drop 3 v)"
    using take_add [of 3 7 v] by simp
  also have "take 7 (drop 3 v) = take 3 (drop 3 v) @ take 4 (drop 6 v)"
    using take_add [of 3 4 "drop 3 v"] by simp
  finally show ?thesis by simp
qed

lemma formatPhone_digits:
  "strip_non_digits (input_value (formatPhone input)) = take 10 (strip_non_digits (input_value input))"
proof -
  let ?v = "filter is_digit (input_value input)"
  have [simp]: "\<not> is_digit 0x28" "\<not> is_digit 0x29" "\<not> is_digit 0x20" "\<not> is_digit 0x2D"
    by (simp_all add: is_digit_def)
  show ?thesis
    by (simp add: formatPhone_def strip_non_digits_def Let_def js_def slice_def slice_from_def
        filter_digit_take filter_digit_drop filter_digit_take_drop take_3_3_4)
qed



lemma fits_digits:
  "list_all is_digit v \<Longrightarrow> length v \<le> length t \<Longrightarrow> list_all (\<lambda>c. c = CHR ''N'') t
     \<Longrightarrow> fits_template (t @ rest) v"
  by (induction t v rule: fits_template.induct) auto

lemma fits_append:
  "length a = length t1 \<Longrightarrow> fits_template t1 a \<Longrightarrow> fits_template t2 b \<Longrightarrow> fits_template (t1 @ t2) (a @ b)"
  by (induction t1 a rule: fits_template.induct) auto

lemma fits_literal: "CHR ''N'' \<notin> set t \<Longrightarrow> fits_template t (js t)"
  by (induction t) (auto simp: js_def)

lemma formatPhone_shape: "fits_template phone_template (input_value (formatPhone input))"
proof -
  define v where "v = filter is_digit (input_value input)"
  have d: "list_all is_digit (take n (drop m v))" for n m
    by (auto simp: list_all_iff v_def dest!: in_set_takeD in_set_dropD)
  have d0: "list_all is_digit v" "list_all is_digit (drop m v)" for m
    by (auto simp: list_all_iff v_def dest!: in_set_dropD)
  have N: "list_all (\<lambda>c. c = CHR ''N'') ''NNN''" "list_all (\<lambda>c. c = CHR ''N'') ''NNNN''"
    by simp_all
  consider "v = []" | "v \<noteq> []" "length v \<le> 3" | "3 < length v" "length v \<le> 6" | "6 < length v"
    by fastforce
  then have "fits_template phone_template
     (if length v > 0 then
                  (if length v \<le> 3 then js ''('' @ v
                   else if length v \<le> 6 then
                     js ''('' @ slice 0 3 v @ js '') '' @ slice_from 3 v
                   else
                     js ''('' @ slice 0 3 v @ js '') '' @ slice 3 6 v @ js ''-''
                       @ slice 6 10 v)
                else v)"
  proof cases
    case 1
    then show ?thesis by simp
  next
    case 2
    have "fits_template (''('' @ (''NNN'' @ '') NNN-NNNN'')) (js ''('' @ v)"
      by (intro fits_append fits_literal fits_digits d0 N) (use 2 in \<open>simp_all add: js_def\<close>)
    with 2 show ?thesis by (simp add: phone_template_def)
  next
    case 3
    have "fits_template (''('' @ ''NNN'' @ '') '' @ (''NNN'' @ ''-NNNN''))
            (js ''('' @ take 3 v @ js '') '' @ drop 3 v)"
      by (intro fits_append fits_literal fits_digits d0 N fits_digits [where rest = "[]", simplified] d [where m = 0, simplified])
        (use 3 in \<open>simp_all add: js_def\<close>)
    with 3 show ?thesis by (simp add: phone_template_def slice_def slice_from_def)
  next
    case 4
    have "fits_template (''('' @ ''NNN'' @ '') '' @ ''NNN'' @ ''-'' @ (''NNNN'' @ []))
            (js ''('' @ take 3 v @ js '') '' @ take 3 (drop 3 v) @ js ''-'' @ take 4 (drop 6 v))"
      by (intro fits_append fits_literal fits_digits d0 N fits_digits [where rest = "[]", simplified] d d [where m = 0, simplified])
        (use 4 in \<open>simp_all add: js_def\<close>)
    with 4 show ?thesis by (simp add: phone_template_def slice_def slice_from_def)
  qed
  then show ?thesis
    unfolding v_def by (simp add: formatPhone_def strip_non_digits_def Let_def)
qed

lemma fits_template_length: "fits_template t v \<Longrightarrow> length v \<le> length t"
  by (induction t v rule: fits_template.induct) auto

lemma formatPhone_ten_digits:
  assumes "10 \<le> length (strip_non_digits (input_value input))"
  shows "input_value (formatPhone input) =
           js ''('' @ take 3 (strip_non_digits (input_value input)) @ js '') ''
             @ take 3 (drop 3 (strip_non_digits (input_value input))) @ js ''-''
             @ take 4 (drop 6 (strip_non_digits (input_value input)))"
  using assms by (auto simp: formatPhone_def Let_def slice_def)

text \<open>
  Claim C8. \<open>formatPhone\<close> drops every character of the value that is not a digit and
  lays the digits out along \<^verbatim>\<open>(NNN) NNN-NNNN\<close>, as far as they go: the digits of the
  result are the first ten digits of the input, in order, and the result fits the
  template. When the digits are 5551234567 the result is \<^verbatim>\<open>(555) 123-4567\<close>; when
  there is no digit the result is empty.
\<close>

theorem formatPhone_discards_and_reformats:
  "strip_non_digits (input_value (formatPhone input)) = take 10 (strip_non_digits (input_value input))
   \<and> fits_template phone_template (input_value (formatPhone input))
   \<and> (strip_non_digits (input_value input) = js ''5551234567''
        \<longrightarrow> input_value (formatPhone input) = js ''(555) 123-4567'')
   \<and> (strip_non_digits (input_value input) = []
        \<longrightarrow> input_value (formatPhone input) = [])"
proof (intro conjI impI)
  show "strip_non_digits (input_value (formatPhone input)) = take 10 (strip_non_digits (input_value input))"
    by (rule formatPhone_digits)
  show "fits_template phone_template (input_value (formatPhone input))"
    by (rule formatPhone_shape)
next
  assume "strip_non_digits (input_value input) = js ''5551234567''"
  then show "input_value (formatPhone input) = js ''(555) 123-4567''"
    by (simp add: formatPhone_def Let_def slice_def js_def)
next
  assume "strip_non_digits (input_value input) = []"
  then show "input_value (formatPhone input) = []"
    by (simp add: formatPhone_def Let_def)
qed

theorem formatPhone_discards_and_reformats_witness:
  "strip_non_digits (input_value typed_phone) = js ''5551234567''
   \<and> input_value (formatPhone typed_phone) = js ''(555) 123-4567''
   \<and> strip_non_digits (input_value typed_letters) = []
   \<and> input_value (formatPhone typed_letters) = []"
proof -
  have a: "strip_non_digits (input_value typed_phone) = js ''5551234567''"
    by (simp add: typed_phone_def strip_non_digits_def js_def is_digit_def)
  have b: "strip_non_digits (input_value typed_letters) = []"
    by (simp add: typed_letters_def strip_non_digits_def js_def is_digit_def)
  show ?thesis
    using a b formatPhone_discards_and_reformats [of typed_phone]
      formatPhone_discards_and_reformats [of typed_letters]
    by simp
qed

text \<open>
  Claim C10. The formatted value never has more than 14 characters. When the value holds
  more than ten digits, the result is \<^verbatim>\<open>(NNN) NNN-NNNN\<close> built from the first ten: it
  has exactly 14 characters and equals what the first ten digits alone would give, so
  the digits after the tenth are dropped.
\<close>

theorem formatPhone_keeps_first_ten:
  "length (input_value (formatPhone input)) \<le> 14
   \<and> (10 < length (strip_non_digits (input_value input)) \<longrightarrow>
        input_value (formatPhone input) =
          js ''('' @ take 3 (strip_non_digits (input_value input)) @ js '') ''
            @ take 3 (drop 3 (strip_non_digits (input_value input))) @ js ''-''
            @ take 4 (drop 6 (strip_non_digits (input_value input)))
        \<and> length (input_value (formatPhone input)) = 14
        \<and> formatPhone input =
            formatPhone (input\<lparr>input_value := take 10 (strip_non_digits (input_value input))\<rparr>))"
proof (intro conjI impI)
  show "length (input_value (formatPhone input)) \<le> 14"
    using fits_template_length [OF formatPhone_shape [of input]]
    by (simp add: phone_template_def)
next
  assume long: "10 < length (strip_non_digits (input_value input))"
  then have ten: "10 \<le> length (strip_non_digits (input_value input))" by simp
  show fmt: "input_value (formatPhone input) =
          js ''('' @ take 3 (strip_non_digits (input_value input)) @ js '') ''
            @ take 3 (drop 3 (strip_non_digits (input_value input))) @ js ''-''
            @ take 4 (drop 6 (strip_non_digits (input_value input)))"
    by (rule formatPhone_ten_digits [OF ten])
  show "length (input_value (formatPhone input)) = 14"
    using long by (simp add: fmt js_def)
  have "strip_non_digits (take 10 (strip_non_digits (input_value input)))
          = take 10 (strip_non_digits (input_value input))"
    by (simp add: strip_non_digits_def filter_digit_take)
  then show "formatPhone input =
      formatPhone (input\<lparr>input_value := take 10 (strip_non_digits (input_value input))\<rparr>)"
    using long by (simp add: formatPhone_def Let_def slice_def drop_take)
qed

theorem formatPhone_keeps_first_ten_witness:
  "10 < length (strip_non_digits (input_value typed_long))
   \<and> input_value (formatPhone typed_long) = js ''(155) 512-3456''
   \<and> length (input_value (formatPhone typed_long)) = 14"
proof -
  have a: "strip_non_digits (input_value typed_long) = js ''1555123456789''"
    by (simp add: typed_long_def strip_non_digits_def js_def is_digit_def)
  have b: "10 < length (strip_non_digits (input_value typed_long))"
    by (simp add: a js_def)
  from formatPhone_keeps_first_ten [of typed_long] b
  have "input_value (formatPhone typed_long) =
          js ''('' @ take 3 (strip_non_digits (input_value typed_long)) @ js '') ''
            @ take 3 (drop 3 (strip_non_digits (input_value typed_long))) @ js ''-''
            @ take 4 (drop 6 (strip_non_digits (input_value typed_long)))"
    and "length (input_value (formatPhone typed_long)) = 14"
    by blast+
  with b show ?thesis by (simp add: a js_def)
qed


section \<open>Properties of form validation\<close>

subsection \<open>The regular expressions\<close>

lemma regex_test_OneOrMore:
  "regex_test ((p, OneOrMore) # r) s \<longleftrightarrow>
     (\<exists>a b. s = a @ b \<and> a \<noteq> [] \<and> list_all p a \<and> regex_test r b)"
proof (induction s)
  case Nil
  then show ?case by simp
next
  case (Cons c cs)
  show ?case
  proof
    assume "regex_test ((p, OneOrMore) # r) (c # cs)"
    then have pc: "p c" and rest: "regex_test ((p, OneOrMore) # r) cs \<or> regex_test r cs"
      by simp_all
    from rest show "\<exists>a b. c # cs = a @ b \<and> a \<noteq> [] \<and> list_all p a \<and> regex_test r b"
    proof
      assume "regex_test ((p, OneOrMore) # r) cs"
      with Cons.IH obtain a b where "cs = a @ b" "list_all p a" "regex_test r b"
        by blast
      with pc have "c # cs = (c # a) @ b \<and> c # a \<noteq> [] \<and> list_all p (c # a) \<and> regex_test r b"
        by simp
      then show ?thesis by blast
    next
      assume "regex_test r cs"
      with pc have "c # cs = [c] @ cs \<and> [c] \<noteq> [] \<and> list_all p [c] \<and> regex_test r cs"
        by simp
      then show ?thesis by blast
    qed
  next
    assume "\<exists>a b. c # cs = a @ b \<and> a \<noteq> [] \<and> list_all p a \<and> regex_test r b"
    then obtain a b where ab: "c # cs = a @ b" "a \<noteq> []" "list_all p a" "regex_test r b"
      by blast
    then obtain a' where a: "a = c # a'" and cs: "cs = a' @ b"
      by (cases a) auto
    show "regex_test ((p, OneOrMore) # r) (c # cs)"
    proof (cases "a' = []")
      case True
      with ab a cs show ?thesis by simp
    next
      case False
      with ab a cs have "regex_test ((p, OneOrMore) # r) cs"
        using Cons.IH by auto
      with ab a show ?thesis by simp
    qed
  qed
qed

lemma regex_test_Once:
  "regex_test ((p, Once) # r) s \<longleftrightarrow> (\<exists>c cs. s = c # cs \<and> p c \<and> regex_test r cs)"
  by (cases s) auto

lemma phoneRegex_test: "regex_test phoneRegex v \<longleftrightarrow> v \<noteq> [] \<and> list_all phone_char v"
  by (auto simp: phoneRegex_def regex_test_OneOrMore)

lemma emailRegex_test: "regex_test emailRegex v \<longleftrightarrow> spec_email_pattern v"
  unfolding emailRegex_def spec_email_pattern_def regex_test_OneOrMore regex_test_Once
  by (simp add: js_def not_space_at_def [abs_def]) blast

subsection \<open>clearError, showError\<close>

lemma errorEl_has_error [simp]: "errorEl (input\<lparr>has_error := b\<rparr>) doc = errorEl input doc"
  by (simp add: errorEl_def)

lemma errorEl_upd:
  "errorEl input doc = Some (i, el) \<Longrightarrow> errorEl input (doc(i \<mapsto> el')) = Some (i, el')"
  by (auto simp: errorEl_def split: option.splits if_splits)

lemma errorEl_SomeD: "errorEl input doc = Some (i, el) \<Longrightarrow> doc i = Some el"
  by (auto simp: errorEl_def split: option.splits if_splits)

lemma clearError_fst: "fst (clearError input doc) = input\<lparr>has_error := False\<rparr>"
  by (simp add: clearError_def Let_def split: option.splits)

lemma showError_fst: "fst (showError input m doc) = input\<lparr>has_error := True\<rparr>"
  by (simp add: showError_def Let_def split: option.splits)

lemma clearError_None: "errorEl input doc = None \<Longrightarrow> clearError input doc = (input\<lparr>has_error := False\<rparr>, doc)"
  by (simp add: clearError_def)

lemma showError_None: "errorEl input doc = None \<Longrightarrow> showError input m doc = (input\<lparr>has_error := True\<rparr>, doc)"
  by (simp add: showError_def)

lemma clearError_twice:
  "clearError (fst (clearError input doc)) (snd (clearError input doc)) = clearError input doc"
proof (cases "errorEl input doc")
  case None
  then show ?thesis by (simp add: clearError_def)
next
  case (Some a)
  then obtain i el where a: "errorEl input doc = Some (i, el)" by (cases a) auto
  let ?el = "el\<lparr>textContent := [], display := js ''none''\<rparr>"
  have "errorEl input (doc(i \<mapsto> ?el)) = Some (i, ?el)"
    by (rule errorEl_upd [OF a])
  with a show ?thesis by (simp add: clearError_def)
qed

text \<open>
  Claim C7. \<open>clearError\<close> is idempotent: applied to the field and the document that a
  first \<open>clearError\<close> left, it changes nothing. After the first call the field has no
  error class, and the error-display element it refers to, if there is one, has empty
  text and display \<^verbatim>\<open>none\<close>.
\<close>

theorem clearError_idempotent:
  "(case clearError input doc of
      (input1, doc1) \<Rightarrow>
        clearError input1 doc1 = (input1, doc1)
        \<and> has_error input1 = False
        \<and> errorEl input1 doc1 =
            map_option (\<lambda>(errorId, el). (errorId, el\<lparr>textContent := [], display := js ''none''\<rparr>))
              (errorEl input doc))"
proof (cases "errorEl input doc")
  case None
  then show ?thesis using clearError_twice [of input doc] by (simp add: clearError_def)
next
  case (Some a)
  then obtain i el where a: "errorEl input doc = Some (i, el)" by (cases a) auto
  let ?el = "el\<lparr>textContent := [], display := js ''none''\<rparr>"
  have "errorEl input (doc(i \<mapsto> ?el)) = Some (i, ?el)"
    by (rule errorEl_upd [OF a])
  with a show ?thesis by (simp add: clearError_def)
qed

subsection \<open>validateField\<close>

lemma validateField_fst: "fst (validateField input doc) = passes input"
  by (simp add: passes_def validateField_def Let_def split_beta)

lemma validateField_field:
  "fst (snd (validateField input doc)) = input\<lparr>has_error := \<not> passes input\<rparr>"
  by (simp add: passes_def validateField_def Let_def clearError_fst showError_fst split_beta)

lemma validateField_required:
  assumes "required input" "trim (input_value input) = []"
  shows "validateField input doc =
           (False, showError (fst (clearError input doc)) (js ''This field is required'')
                     (snd (clearError input doc)))"
  using assms by (simp add: validateField_def Let_def split_beta)

lemma showError_after_clear:
  assumes "errorEl input doc = Some (i, el)"
  shows "snd (showError (fst (clearError input doc)) m (snd (clearError input doc))) i
           = Some \<lparr>textContent = m, display = js ''block''\<rparr>"
proof -
  let ?el = "el\<lparr>textContent := [], display := js ''none''\<rparr>"
  have "errorEl input (doc(i \<mapsto> ?el)) = Some (i, ?el)"
    by (rule errorEl_upd [OF assms])
  with assms show ?thesis by (simp add: clearError_def showError_def)
qed

lemma validateField_email_cases:
  assumes "input_type input = js ''email''" and "trim (input_value input) \<noteq> []"
  shows "validateField input doc =
           (if regex_test emailRegex (trim (input_value input)) then (True, clearError input doc)
            else (False, showError (fst (clearError input doc))
                           (js ''Please enter a valid email address'') (snd (clearError input doc))))"
proof -
  have "js ''email'' \<noteq> js ''tel''" by (simp add: js_def)
  with assms show ?thesis by (simp add: validateField_def Let_def split_beta)
qed

lemma validateField_tel_cases:
  assumes "input_type input = js ''tel''" and "trim (input_value input) \<noteq> []"
  shows "validateField input doc =
           (if \<not> regex_test phoneRegex (trim (input_value input))
                \<or> length (strip_non_digits (trim (input_value input))) < 10
            then (False, showError (fst (clearError input doc))
                           (js ''Please enter a valid phone number'') (snd (clearError input doc)))
            else (True, clearError input doc))"
proof -
  have "js ''tel'' \<noteq> js ''email''" by (simp add: js_def)
  with assms show ?thesis by (simp add: validateField_def Let_def split_beta)
qed

lemma amended_tel_invalid_iff:
  "v \<noteq> [] \<Longrightarrow>
   amended_tel_invalid v \<longleftrightarrow> \<not> regex_test phoneRegex v \<or> length (strip_non_digits v) < 10"
  by (simp add: amended_tel_invalid_def phoneRegex_test strip_non_digits_def amended_tel_char_def
      phone_char_def [abs_def] js_def list_all_iff list_ex_iff)

lemma showError_has_error: "has_error (fst (showError input m doc))"
  by (simp add: showError_fst)

text \<open>
  Claim C4. When a field is required and its trimmed value is empty, \<open>validateField\<close>
  returns false after showing "This field is required" on the cleared field: the field
  gets the error class, and the error-display element, if there is one, gets that text
  and display \<^verbatim>\<open>block\<close>. The result is the same whatever the type of the field, so
  the e-mail and phone tests are not reached.
\<close>

theorem validateField_required_first:
  assumes "required input" and "trim (input_value input) = []"
  shows "validateField input doc =
           (False, showError (fst (clearError input doc)) (js ''This field is required'')
                     (snd (clearError input doc)))
         \<and> has_error (fst (snd (validateField input doc)))
         \<and> (\<forall>errorId el. errorEl input doc = Some (errorId, el) \<longrightarrow>
               snd (snd (validateField input doc)) errorId =
                 Some \<lparr>textContent = js ''This field is required'', display = js ''block''\<rparr>)
         \<and> (\<forall>t. fst (validateField (input\<lparr>input_type := t\<rparr>) doc) = False
                \<and> snd (snd (validateField (input\<lparr>input_type := t\<rparr>) doc))
                    = snd (snd (validateField input doc)))"
proof -
  have t: "validateField (input\<lparr>input_type := t\<rparr>) doc =
             (False, showError (fst (clearError (input\<lparr>input_type := t\<rparr>) doc))
                (js ''This field is required'') (snd (clearError (input\<lparr>input_type := t\<rparr>) doc)))" for t
    using assms by (intro validateField_required) simp_all
  have e: "errorEl (input\<lparr>input_type := t\<rparr>) d = errorEl input d" for t d
    by (simp add: errorEl_def)
  have s: "snd (showError (fst (clearError (input\<lparr>input_type := t\<rparr>) doc)) m
                 (snd (clearError (input\<lparr>input_type := t\<rparr>) doc)))
           = snd (showError (fst (clearError input doc)) m (snd (clearError input doc)))" for t m
    by (simp add: showError_def clearError_def e Let_def split: option.splits)
  show ?thesis
    using assms
    by (simp add: validateField_required t s showError_fst showError_after_clear)
qed

theorem validateField_required_first_witness:
  "required (email_field ''  '') \<and> trim (input_value (email_field ''  '')) = []
   \<and> input_type (email_field ''  '') = js ''email''
   \<and> fst (validateField (email_field ''  '') page_doc) = False
   \<and> snd (snd (validateField (email_field ''  '') page_doc)) (js ''email-error'') =
       Some \<lparr>textContent = js ''This field is required'', display = js ''block''\<rparr>"
proof -
  have r: "required (email_field ''  '')" by (simp add: email_field_def)
  have v: "trim (input_value (email_field ''  '')) = []"
    by (simp add: email_field_def trim_def js_def is_space_def)
  have e: "errorEl (email_field ''  '') page_doc =
             Some (js ''email-error'', \<lparr>textContent = js ''old'', display = js ''block''\<rparr>)"
    by (simp add: email_field_def errorEl_def page_doc_def js_def)
  note w = validateField_required_first [OF r v, of page_doc]
  from w have f: "fst (validateField (email_field ''  '') page_doc) = False"
    by simp
  from w e have m: "snd (snd (validateField (email_field ''  '') page_doc)) (js ''email-error'') =
       Some \<lparr>textContent = js ''This field is required'', display = js ''block''\<rparr>"
    by blast
  have t: "input_type (email_field ''  '') = js ''email''" by (simp add: email_field_def)
  from r v t f m show ?thesis by blast
qed

text \<open>
  Claim C5. For a field of type \<^verbatim>\<open>email\<close> with a non-empty trimmed value,
  \<open>validateField\<close> returns true exactly when the value has the form
  \<^verbatim>\<open>local@domain.tld\<close>; when it has not, the result is false with the message "Please
  enter a valid email address", and when it has, the field is left cleared.
  \<^verbatim>\<open>user@example.com\<close> passes; \<^verbatim>\<open>user@\<close>, \<^verbatim>\<open>user@com\<close> and
  \<^verbatim>\<open>user example.com\<close> fail.
\<close>

theorem validateField_email:
  assumes "input_type input = js ''email''" and "trim (input_value input) \<noteq> []"
  shows "(fst (validateField input doc) \<longleftrightarrow> spec_email_pattern (trim (input_value input)))
         \<and> (\<not> spec_email_pattern (trim (input_value input)) \<longrightarrow>
              validateField input doc =
                (False, showError (fst (clearError input doc))
                          (js ''Please enter a valid email address'') (snd (clearError input doc))))
         \<and> (spec_email_pattern (trim (input_value input)) \<longrightarrow>
              validateField input doc = (True, clearError input doc))
         \<and> (trim (input_value input) = js ''user@example.com'' \<longrightarrow> fst (validateField input doc))
         \<and> (trim (input_value input) = js ''user@'' \<longrightarrow> \<not> fst (validateField input doc))
         \<and> (trim (input_value input) = js ''user@com'' \<longrightarrow> \<not> fst (validateField input doc))
         \<and> (trim (input_value input) = js ''user example.com'' \<longrightarrow> \<not> fst (validateField input doc))"
proof -
  note c = validateField_email_cases [OF assms, of doc]
  have ex: "regex_test emailRegex (js ''user@example.com'')"
    "\<not> regex_test emailRegex (js ''user@'')"
    "\<not> regex_test emailRegex (js ''user@com'')"
    "\<not> regex_test emailRegex (js ''user example.com'')"
    by code_simp+
  show ?thesis
    by (auto simp: c ex emailRegex_test [symmetric])
qed

theorem validateField_email_witness:
  "input_type (email_field '' user@example.com '') = js ''email''
   \<and> trim (input_value (email_field '' user@example.com '')) = js ''user@example.com''
   \<and> fst (validateField (email_field '' user@example.com '') page_doc)
   \<and> spec_email_pattern (js ''user@example.com'')
   \<and> input_type (email_field ''user@com'') = js ''email''
   \<and> trim (input_value (email_field ''user@com'')) = js ''user@com''
   \<and> fst (validateField (email_field ''user@com'') page_doc) = False
   \<and> snd (snd (validateField (email_field ''user@com'') page_doc)) (js ''email-error'') =
       Some \<lparr>textContent = js ''Please enter a valid email address'', display = js ''block''\<rparr>"
proof -
  have t: "input_type (email_field v) = js ''email''" for v by (simp add: email_field_def)
  have v1: "trim (input_value (email_field '' user@example.com '')) = js ''user@example.com''"
    by (simp add: email_field_def trim_def js_def is_space_def)
  have v2: "trim (input_value (email_field ''user@com'')) = js ''user@com''"
    by (simp add: email_field_def trim_def js_def is_space_def)
  have n1: "trim (input_value (email_field '' user@example.com '')) \<noteq> []"
    by (simp add: v1) (simp add: js_def)
  have n2: "trim (input_value (email_field ''user@com'')) \<noteq> []"
    by (simp add: v2) (simp add: js_def)
  have e: "errorEl (email_field ''user@com'') page_doc =
             Some (js ''email-error'', \<lparr>textContent = js ''old'', display = js ''block''\<rparr>)"
    by (simp add: email_field_def errorEl_def page_doc_def js_def)
  note w1 = validateField_email [OF t n1, of page_doc, unfolded v1]
  from w1 have a: "fst (validateField (email_field '' user@example.com '') page_doc)"
    by blast
  from w1 a have b: "spec_email_pattern (js ''user@example.com'')"
    by blast
  note w2 = validateField_email [OF t n2, of page_doc, unfolded v2]
  from w2 have c: "fst (validateField (email_field ''user@com'') page_doc) = False"
    by blast
  from w2 c have "validateField (email_field ''user@com'') page_doc =
          (False, showError (fst (clearError (email_field ''user@com'') page_doc))
                    (js ''Please enter a valid email address'')
                    (snd (clearError (email_field ''user@com'') page_doc)))"
    by blast
  then have m: "snd (snd (validateField (email_field ''user@com'') page_doc)) (js ''email-error'') =
       Some \<lparr>textContent = js ''Please enter a valid email address'', display = js ''block''\<rparr>"
    by (simp add: showError_after_clear [OF e])
  from t [of "'' user@example.com ''"] t [of "''user@com''"] v1 v2 a b c m show ?thesis
    by blast
qed

text \<open>
  Claim C6, as stated, lists the space among the characters a phone value may hold. The
  pattern of the source has the class \<^verbatim>\<open>\s\<close> there, so other white space passes too:
  a required phone field with the value 555, tab, 123, tab, 4567 holds a character
  outside the claim's list, and \<open>validateField\<close> returns true on it and leaves the
  field without the error class.
\<close>

theorem validateField_tel_tab_counterexample:
  "input_type tabbed_phone = js ''tel''
   \<and> trim (input_value tabbed_phone) = js ''555'' @ [0x09] @ js ''123'' @ [0x09] @ js ''4567''
   \<and> trim (input_value tabbed_phone) \<noteq> []
   \<and> spec_tel_invalid (trim (input_value tabbed_phone))
   \<and> fst (validateField tabbed_phone phone_doc)
   \<and> has_error (fst (snd (validateField tabbed_phone phone_doc))) = False"
proof -
  have t: "input_type tabbed_phone = js ''tel''" by (simp add: tabbed_phone_def)
  have v: "trim (input_value tabbed_phone) = js ''555'' @ [0x09] @ js ''123'' @ [0x09] @ js ''4567''"
    by code_simp
  have n: "trim (input_value tabbed_phone) \<noteq> []" by code_simp
  have i: "spec_tel_invalid (trim (input_value tabbed_phone))" by code_simp
  have p: "passes tabbed_phone" by code_simp
  from p have f: "fst (validateField tabbed_phone phone_doc)"
    by (simp add: validateField_fst)
  from p have e: "has_error (fst (snd (validateField tabbed_phone phone_doc))) = False"
    by (simp add: validateField_field)
  from t v n i f e show ?thesis by blast
qed

text \<open>
  Claim C6, amended. For a field of type \<^verbatim>\<open>tel\<close> with a non-empty trimmed value,
  \<open>validateField\<close> returns false exactly when the value holds a character other than a
  digit, a white-space character, hyphen, parenthesis or plus, or holds fewer than ten
  digits. It then puts the error class on the field and, when the field has an
  error-display element, writes "Please enter a valid phone number" there with display
  \<^verbatim>\<open>block\<close>; otherwise it leaves the field cleared. So a value with fewer than ten
  digits fails whatever else it holds; \<^verbatim>\<open>(555) 123-4567\<close> passes and
  \<^verbatim>\<open>555-12a-3456\<close> fails.
\<close>

theorem validateField_tel:
  assumes "input_type input = js ''tel''" and "trim (input_value input) \<noteq> []"
  shows "(fst (validateField input doc) \<longleftrightarrow> \<not> amended_tel_invalid (trim (input_value input)))
         \<and> (amended_tel_invalid (trim (input_value input)) \<longrightarrow>
              validateField input doc =
                (False, showError (fst (clearError input doc))
                          (js ''Please enter a valid phone number'') (snd (clearError input doc)))
              \<and> has_error (fst (snd (validateField input doc)))
              \<and> (\<forall>errorId el. errorEl input doc = Some (errorId, el) \<longrightarrow>
                    snd (snd (validateField input doc)) errorId =
                      Some \<lparr>textContent = js ''Please enter a valid phone number'',
                            display = js ''block''\<rparr>))
         \<and> (\<not> amended_tel_invalid (trim (input_value input)) \<longrightarrow>
              validateField input doc = (True, clearError input doc))
         \<and> (length (filter is_digit (trim (input_value input))) < 10 \<longrightarrow>
              \<not> fst (validateField input doc))
         \<and> (trim (input_value input) = js ''(555) 123-4567'' \<longrightarrow> fst (validateField input doc))
         \<and> (trim (input_value input) = js ''555-12a-3456'' \<longrightarrow> \<not> fst (validateField input doc))"
proof -
  note c = validateField_tel_cases [OF assms, of doc]
  note i = amended_tel_invalid_iff [OF assms(2)]
  have ex: "\<not> amended_tel_invalid (js ''(555) 123-4567'')" "amended_tel_invalid (js ''555-12a-3456'')"
    by code_simp+
  have few: "length (filter is_digit (trim (input_value input))) < 10
              \<Longrightarrow> amended_tel_invalid (trim (input_value input))"
    by (simp add: amended_tel_invalid_def)
  have main: "fst (validateField input doc) \<longleftrightarrow> \<not> amended_tel_invalid (trim (input_value input))"
    by (simp add: c i)
  have bad: "validateField input doc =
            (False, showError (fst (clearError input doc))
                      (js ''Please enter a valid phone number'') (snd (clearError input doc)))"
    if "amended_tel_invalid (trim (input_value input))"
    using that i by (simp add: c)
  show ?thesis
  proof (intro conjI impI allI)
    show "fst (validateField input doc) \<longleftrightarrow> \<not> amended_tel_invalid (trim (input_value input))"
      by (rule main)
    show "validateField input doc =
            (False, showError (fst (clearError input doc))
                      (js ''Please enter a valid phone number'') (snd (clearError input doc)))"
      if "amended_tel_invalid (trim (input_value input))"
      by (rule bad [OF that])
    show "has_error (fst (snd (validateField input doc)))"
      if "amended_tel_invalid (trim (input_value input))"
      by (simp add: bad [OF that] showError_has_error)
    show "snd (snd (validateField input doc)) errorId =
            Some \<lparr>textContent = js ''Please enter a valid phone number'', display = js ''block''\<rparr>"
      if "amended_tel_invalid (trim (input_value input))" "errorEl input doc = Some (errorId, el)"
      for errorId el
      by (simp add: bad [OF that(1)] showError_after_clear [OF that(2)])
    show "validateField input doc = (True, clearError input doc)"
      if "\<not> amended_tel_invalid (trim (input_value input))"
      using that i by (simp add: c)
    show "\<not> fst (validateField input doc)"
      if "length (filter is_digit (trim (input_value input))) < 10"
      using few [OF that] main by simp
    show "fst (validateField input doc)" if "trim (input_value input) = js ''(555) 123-4567''"
      using main ex(1) that by simp
    show "\<not> fst (validateField input doc)" if "trim (input_value input) = js ''555-12a-3456''"
      using main ex(2) that by simp
  qed
qed

theorem validateField_tel_witness:
  "input_type (tel_field ''(555) 123-4567 '') = js ''tel''
   \<and> trim (input_value (tel_field ''(555) 123-4567 '')) = js ''(555) 123-4567''
   \<and> fst (validateField (tel_field ''(555) 123-4567 '') phone_doc)
   \<and> input_type tabbed_phone = js ''tel''
   \<and> trim (input_value tabbed_phone) \<noteq> []
   \<and> fst (validateField tabbed_phone phone_doc)
   \<and> input_type (tel_field ''555-1234'') = js ''tel''
   \<and> trim (input_value (tel_field ''555-1234'')) = js ''555-1234''
   \<and> length (filter is_digit (js ''555-1234'')) = 7
   \<and> fst (validateField (tel_field ''555-1234'') phone_doc) = False
   \<and> has_error (fst (snd (validateField (tel_field ''555-1234'') phone_doc)))
   \<and> snd (snd (validateField (tel_field ''555-1234'') phone_doc)) (js ''phone-error'') =
       Some \<lparr>textContent = js ''Please enter a valid phone number'', display = js ''block''\<rparr>"
proof -
  have t: "input_type (tel_field v) = js ''tel''" for v by (simp add: tel_field_def)
  have t3: "input_type tabbed_phone = js ''tel''" by (simp add: tabbed_phone_def)
  have v1: "trim (input_value (tel_field ''(555) 123-4567 '')) = js ''(555) 123-4567''"
    by code_simp
  have v2: "trim (input_value (tel_field ''555-1234'')) = js ''555-1234''"
    by code_simp
  have n1: "trim (input_value (tel_field ''(555) 123-4567 '')) \<noteq> []"
    by code_simp
  have n2: "trim (input_value (tel_field ''555-1234'')) \<noteq> []"
    by code_simp
  have n3: "trim (input_value tabbed_phone) \<noteq> []"
    by code_simp
  have a3: "\<not> amended_tel_invalid (trim (input_value tabbed_phone))"
    by code_simp
  have l: "length (filter is_digit (js ''555-1234'')) = 7"
    by code_simp
  have e: "errorEl (tel_field ''555-1234'') phone_doc =
             Some (js ''phone-error'', \<lparr>textContent = [], display = js ''none''\<rparr>)"
    by (simp add: tel_field_def errorEl_def phone_doc_def js_def)
  note w1 = validateField_tel [OF t n1, of phone_doc, unfolded v1]
  from w1 have a: "fst (validateField (tel_field ''(555) 123-4567 '') phone_doc)"
    by blast
  note w3 = validateField_tel [OF t3 n3, of phone_doc]
  from w3 a3 have b: "fst (validateField tabbed_phone phone_doc)"
    by blast
  note w2 = validateField_tel [OF t n2, of phone_doc, unfolded v2]
  have l10: "length (filter is_digit (js ''555-1234'')) < 10"
    by (simp add: l)
  from w2 l10 have c: "fst (validateField (tel_field ''555-1234'') phone_doc) = False"
    by blast
  from w2 c have i: "amended_tel_invalid (js ''555-1234'')"
    by blast
  from w2 i have m: "has_error (fst (snd (validateField (tel_field ''555-1234'') phone_doc)))"
    by blast
  from w2 i e have d: "snd (snd (validateField (tel_field ''555-1234'') phone_doc)) (js ''phone-error'') =
       Some \<lparr>textContent = js ''Please enter a valid phone number'', display = js ''block''\<rparr>"
    by blast
  from t [of "''(555) 123-4567 ''"] t [of "''555-1234''"] t3 n3 v1 v2 l a b c m d show ?thesis
    by blast
qed

text \<open>
  Claim C9. When the \<^verbatim>\<open>aria-describedby\<close> attribute of a field leads to no element,
  \<open>showError\<close> leaves the document as it is and still puts the error class on the
  field; \<open>validateField\<close> returns the same boolean and leaves the same field as under
  any other document \<open>doc'\<close> (one that holds the element, say), marks the field exactly
  when it returns false, and leaves the document unchanged.
\<close>

theorem missing_error_target:
  assumes "errorEl input doc = None"
  shows "showError input message doc = (input\<lparr>has_error := True\<rparr>, doc)
         \<and> fst (validateField input doc) = fst (validateField input doc')
         \<and> fst (snd (validateField input doc)) = fst (snd (validateField input doc'))
         \<and> has_error (fst (snd (validateField input doc))) = (\<not> fst (validateField input doc))
         \<and> snd (snd (validateField input doc)) = doc"
proof -
  have d: "snd (snd (validateField input doc)) = doc"
    using assms
    by (simp add: validateField_def Let_def clearError_None showError_None)
  show ?thesis
    using assms
    by (simp add: showError_None validateField_fst validateField_field d)
qed

theorem missing_error_target_witness:
  "errorEl (tel_field ''555-1234'') page_doc = None
   \<and> errorEl (tel_field ''555-1234'')
        (page_doc(js ''phone-error'' \<mapsto> \<lparr>textContent = [], display = js ''none''\<rparr>)) \<noteq> None
   \<and> fst (validateField (tel_field ''555-1234'') page_doc)
       = fst (validateField (tel_field ''555-1234'')
           (page_doc(js ''phone-error'' \<mapsto> \<lparr>textContent = [], display = js ''none''\<rparr>)))
   \<and> has_error (fst (showError (tel_field ''555-1234'') (js ''Please enter a valid phone number'') page_doc))
   \<and> snd (showError (tel_field ''555-1234'') (js ''Please enter a valid phone number'') page_doc)
       (js ''phone-error'') = None"
proof -
  have e: "errorEl (tel_field ''555-1234'') page_doc = None"
    by (simp add: errorEl_def tel_field_def page_doc_def js_def)
  have e': "errorEl (tel_field ''555-1234'')
        (page_doc(js ''phone-error'' \<mapsto> \<lparr>textContent = [], display = js ''none''\<rparr>)) \<noteq> None"
    by (simp add: errorEl_def tel_field_def js_def)
  have p: "page_doc (js ''phone-error'') = None"
    by (simp add: page_doc_def js_def)
  note w = missing_error_target [OF e]
  from w [of "js ''Please enter a valid phone number''"] p
  have s: "has_error (fst (showError (tel_field ''555-1234'') (js ''Please enter a valid phone number'') page_doc))"
    "snd (showError (tel_field ''555-1234'') (js ''Please enter a valid phone number'') page_doc)
       (js ''phone-error'') = None"
    by simp_all
  from w [of _ "page_doc(js ''phone-error'' \<mapsto> \<lparr>textContent = [], display = js ''none''\<rparr>)"]
  have f: "fst (validateField (tel_field ''555-1234'') page_doc)
       = fst (validateField (tel_field ''555-1234'')
           (page_doc(js ''phone-error'' \<mapsto> \<lparr>textContent = [], display = js ''none''\<rparr>)))"
    by blast
  from e e' s f show ?thesis by blast
qed

subsection \<open>Submission\<close>

lemma validate_inputs_fst:
  "fst (validate_inputs form doc isValid) = (isValid \<and> list_all passes (inputs_of form))"
proof (induction form doc isValid rule: validate_inputs.induct)
  case (1 doc isValid)
  then show ?case by simp
next
  case (2 error rest doc isValid)
  then show ?case by (simp add: split_beta)
next
  case (3 input rest doc isValid)
  have "fst (validate_inputs (FieldEl input # rest) doc isValid)
          = fst (validate_inputs rest (snd (snd (validateField input doc)))
                  (if \<not> fst (validateField input doc) then False else isValid))"
    by (simp add: split_beta)
  also have "\<dots> = ((if \<not> passes input then False else isValid) \<and> list_all passes (inputs_of rest))"
    using "3.IH" [OF prod.collapse prod.collapse] by (simp only: validateField_fst)
  finally show ?case by auto
qed

lemma validate_inputs_form:
  "fst (snd (validate_inputs form doc isValid)) = map validated form"
proof (induction form doc isValid rule: validate_inputs.induct)
  case (1 doc isValid)
  then show ?case by simp
next
  case (2 error rest doc isValid)
  then show ?case by (simp add: split_beta)
next
  case (3 input rest doc isValid)
  have "fst (snd (validate_inputs (FieldEl input # rest) doc isValid))
          = FieldEl (fst (snd (validateField input doc)))
            # fst (snd (validate_inputs rest (snd (snd (validateField input doc)))
                  (if \<not> fst (validateField input doc) then False else isValid)))"
    by (simp add: split_beta)
  then show ?case
    using "3.IH" [OF prod.collapse prod.collapse]
    by (simp add: validateField_field)
qed

lemma querySelector_error_None:
  "querySelector_error els = None \<longleftrightarrow> list_all (\<lambda>el. \<not> has_class_error el) els"
  by (induction els) auto

lemma querySelector_error_Some:
  "querySelector_error els = Some k \<longleftrightarrow>
     k < length els \<and> has_class_error (els ! k) \<and> (\<forall>j<k. \<not> has_class_error (els ! j))"
proof (induction els arbitrary: k)
  case Nil
  then show ?case by simp
next
  case (Cons el els)
  show ?case
  proof (cases "has_class_error el")
    case True
    then show ?thesis by (cases k) auto
  next
    case False
    show ?thesis
    proof (cases k)
      case 0
      with False show ?thesis by auto
    next
      case (Suc k')
      have "(\<forall>j<Suc k'. \<not> has_class_error ((el # els) ! j))
              \<longleftrightarrow> (\<forall>j<k'. \<not> has_class_error (els ! j))"
        using False by (auto simp: less_Suc_eq_0_disj)
      with False Suc Cons.IH [of k'] show ?thesis by auto
    qed
  qed
qed

lemma on_submit_form:
  "form_after (on_submit form doc) = map validated form"
  using validate_inputs_form [of form doc True]
  by (simp add: on_submit_def split_beta)

lemma on_submit_prevented:
  "defaultPrevented (on_submit form doc) = (\<not> list_all passes (inputs_of form))"
  using validate_inputs_fst [of form doc True]
  by (simp add: on_submit_def split_beta)

lemma on_submit_focused:
  "focused (on_submit form doc) =
     (if list_all passes (inputs_of form) then None
      else querySelector_error (map validated form))"
  using validate_inputs_fst [of form doc True] validate_inputs_form [of form doc True]
  by (simp add: on_submit_def split_beta)

lemma set_inputs_of: "set (inputs_of form) = {input. FieldEl input \<in> set form}"
  by (induction form rule: inputs_of.induct) auto

text \<open>
  On a form none of whose other elements carries the class \<^verbatim>\<open>error\<close>, submission
  reaches the first failing field: every field ends with the error class exactly when it fails;
  when all fields pass nothing is prevented or focused; when some field fails the default
  action is prevented and the focus goes to the first failing field.
\<close>

lemma on_submit_without_error_notes:
  assumes "list_all (\<lambda>el. el \<noteq> OtherEl True) form"
  shows "form_after (on_submit form doc) = map validated form
   \<and> (list_all passes (inputs_of form) \<longrightarrow>
        \<not> defaultPrevented (on_submit form doc) \<and> focused (on_submit form doc) = None)
   \<and> (\<not> list_all passes (inputs_of form) \<longrightarrow>
        defaultPrevented (on_submit form doc)
        \<and> (\<exists>k input. focused (on_submit form doc) = Some k \<and> k < length form
               \<and> form ! k = FieldEl input \<and> \<not> passes input
               \<and> (\<forall>j<k. \<forall>earlier. form ! j = FieldEl earlier \<longrightarrow> passes earlier)))"
proof (intro conjI impI)
  show "form_after (on_submit form doc) = map validated form"
    by (rule on_submit_form)
next
  assume "list_all passes (inputs_of form)"
  then show "\<not> defaultPrevented (on_submit form doc)" "focused (on_submit form doc) = None"
    by (simp_all add: on_submit_prevented on_submit_focused)
next
  assume bad: "\<not> list_all passes (inputs_of form)"
  then show "defaultPrevented (on_submit form doc)"
    by (simp add: on_submit_prevented)
  let ?els = "map validated form"
  from bad obtain failing where "FieldEl failing \<in> set form" "\<not> passes failing"
    by (auto simp: list_all_iff set_inputs_of)
  then have "validated (FieldEl failing) \<in> set ?els" "has_class_error (validated (FieldEl failing))"
    by (simp_all del: validated.simps, simp)
  then have "\<not> list_all (\<lambda>el. \<not> has_class_error el) ?els"
    by (auto simp: list_all_iff simp del: validated.simps)
  then obtain k where k: "querySelector_error ?els = Some k"
    using querySelector_error_None [of ?els] by (cases "querySelector_error ?els") auto
  from k have q: "k < length ?els \<and> has_class_error (?els ! k)
      \<and> (\<forall>j<k. \<not> has_class_error (?els ! j))"
    using querySelector_error_Some [of ?els k] by blast
  then have len: "k < length form" by simp
  from q len have e: "has_class_error (validated (form ! k))" by simp
  from len assms have "form ! k \<noteq> OtherEl True"
    by (simp add: list_all_length)
  with e obtain input where f: "form ! k = FieldEl input" "\<not> passes input"
    by (cases "form ! k") auto
  have "passes earlier" if "j < k" "form ! j = FieldEl earlier" for j earlier
  proof -
    from that(1) len have jl: "j < length form" by simp
    from q that(1) have "\<not> has_class_error (?els ! j)" by blast
    with jl have "\<not> has_class_error (validated (form ! j))" by simp
    with that(2) show ?thesis by simp
  qed
  with bad k len f
  show "\<exists>k input. focused (on_submit form doc) = Some k \<and> k < length form
               \<and> form ! k = FieldEl input \<and> \<not> passes input
               \<and> (\<forall>j<k. \<forall>earlier. form ! j = FieldEl earlier \<longrightarrow> passes earlier)"
    by (auto simp: on_submit_focused)
qed

text \<open>
  Claim C3. On submit every field is validated, and when some field fails the default
  action is prevented and the focus is to go to the first field in error state. The
  listener looks for the first descendant of the form with class \<^verbatim>\<open>error\<close>, of
  whatever kind. On a form that opens with an error note of that class, followed by a
  name field that passes and an e-mail field that fails, submission is prevented and the
  e-mail field, third among the descendants, is the only field in error state; yet
  \<^verbatim>\<open>focus\<close> is called on the note, which is no field.
\<close>

theorem on_submit_focuses_error_note:
  "inputs_of form_with_note = [named_field ''Ada'', email_field ''foo@bar'']
   \<and> passes (named_field ''Ada'') \<and> passes (email_field ''foo@bar'') = False
   \<and> defaultPrevented (on_submit form_with_note page_doc)
   \<and> map has_class_error (form_after (on_submit form_with_note page_doc)) = [True, False, True]
   \<and> form_after (on_submit form_with_note page_doc) ! 0 = OtherEl True
   \<and> focused (on_submit form_with_note page_doc) = Some 0"
proof -
  have p: "passes (named_field ''Ada'')" "passes (email_field ''foo@bar'') = False"
    by code_simp+
  have i: "inputs_of form_with_note = [named_field ''Ada'', email_field ''foo@bar'']"
    by (simp add: form_with_note_def)
  have bad: "\<not> list_all passes (inputs_of form_with_note)"
    using p by (simp add: i)
  have f: "form_after (on_submit form_with_note page_doc)
             = [OtherEl True, FieldEl ((named_field ''Ada'')\<lparr>has_error := False\<rparr>),
                FieldEl ((email_field ''foo@bar'')\<lparr>has_error := True\<rparr>)]"
    using p by (simp add: on_submit_form form_with_note_def)
  have q: "focused (on_submit form_with_note page_doc) = Some 0"
    using bad by (simp add: on_submit_focused) (simp add: form_with_note_def)
  from bad have d: "defaultPrevented (on_submit form_with_note page_doc)"
    by (simp add: on_submit_prevented)
  from p i d q show ?thesis by (simp add: f)
qed

theorem on_submit_focuses_error_note_witness:
  "focused (on_submit form_with_note page_doc) \<noteq> Some 2
   \<and> has_class_error (form_after (on_submit form_with_note page_doc) ! 2)"
proof -
  from on_submit_focuses_error_note
  have "focused (on_submit form_with_note page_doc) = Some 0"
    and "map has_class_error (form_after (on_submit form_with_note page_doc)) = [True, False, True]"
    by blast+
  then have "focused (on_submit form_with_note page_doc) \<noteq> Some 2"
    and "map has_class_error (form_after (on_submit form_with_note page_doc)) ! 2 = True"
    by simp_all
  moreover have "length (form_after (on_submit form_with_note page_doc)) = 3"
    by (simp add: on_submit_form form_with_note_def)
  ultimately show ?thesis by simp
qed


section \<open>Properties of the accordion\<close>

lemma length_faq_click [simp]: "length (faq_click i faqItems) = length faqItems"
  by (simp add: faq_click_def Let_def)

lemma faq_click_not_installed: "\<not> installed i faqItems \<Longrightarrow> faq_click i faqItems = faqItems"
  by (auto simp: faq_click_def installed_def)

lemma faq_click_nth_other:
  assumes "installed i faqItems" "j < length faqItems" "j \<noteq> i"
  shows "faq_click i faqItems ! j = close_other i (j, faqItems ! j)"
  using assms by (simp add: faq_click_def installed_def Let_def nth_enumerate_eq)

lemma faq_click_nth_self:
  assumes "installed i faqItems"
  shows "faq_click i faqItems ! i =
           (faqItems ! i)\<lparr>is_open := \<not> is_open (faqItems ! i),
                            aria_expanded := Some (js_bool (\<not> is_open (faqItems ! i)))\<rparr>"
  using assms by (simp add: faq_click_def installed_def Let_def nth_enumerate_eq close_other_def)

lemma faq_click_is_open:
  assumes "installed i faqItems" "j < length faqItems"
  shows "is_open (faq_click i faqItems ! j) \<longleftrightarrow> j = i \<and> \<not> is_open (faqItems ! i)"
proof (cases "j = i")
  case True
  with assms show ?thesis by (simp add: faq_click_nth_self)
next
  case False
  with assms show ?thesis by (simp add: faq_click_nth_other close_other_def)
qed

lemma filter_at_most_one:
  assumes "\<And>j. j < length xs \<Longrightarrow> P (xs ! j) \<Longrightarrow> j = i"
  shows "length (filter P xs) \<le> 1"
  using assms
proof (induction xs arbitrary: i)
  case Nil
  then show ?case by simp
next
  case (Cons x xs)
  show ?case
  proof (cases "P x")
    case True
    then have i: "i = 0" using Cons.prems [of 0] by simp
    have "filter P xs = []"
    proof (rule ccontr)
      assume "filter P xs \<noteq> []"
      then obtain y where "y \<in> set xs" "P y" by (auto simp: filter_empty_conv)
      then obtain k where "k < length xs" "xs ! k = y" by (auto simp: in_set_conv_nth)
      with \<open>P y\<close> have "Suc k = i" using Cons.prems [of "Suc k"] by simp
      with i show False by simp
    qed
    with True show ?thesis by simp
  next
    case False
    have "length (filter P xs) \<le> 1"
    proof (rule Cons.IH [of "i - 1"])
      fix j assume "j < length xs" "P (xs ! j)"
      then have "Suc j = i" using Cons.prems [of "Suc j"] by simp
      then show "j = i - 1" by simp
    qed
    with False show ?thesis by simp
  qed
qed

lemma faq_click_at_most_one_open:
  assumes "installed i faqItems"
  shows "open_count (faq_click i faqItems) \<le> 1"
  unfolding open_count_def
proof (rule filter_at_most_one)
  fix j assume "j < length (faq_click i faqItems)" "is_open (faq_click i faqItems ! j)"
  with assms show "j = i" by (simp add: faq_click_is_open)
qed

lemma run_clicks_at_most_one_open:
  assumes "clicks_only acts" "open_count faqItems \<le> 1"
  shows "open_count (run acts faqItems) \<le> 1"
  using assms
proof (induction acts arbitrary: faqItems)
  case Nil
  then show ?case by (simp add: run_def)
next
  case (Cons a acts)
  then obtain i where a: "a = Click i" by (cases a) auto
  have "open_count (faq_click i faqItems) \<le> 1"
  proof (cases "installed i faqItems")
    case True
    then show ?thesis by (rule faq_click_at_most_one_open)
  next
    case False
    with Cons.prems show ?thesis by (simp add: faq_click_not_installed)
  qed
  with Cons a have "open_count (run acts (faq_click i faqItems)) \<le> 1"
    by simp
  with a show ?case by (simp add: run_def)
qed

lemma faq_click_opens_closed:
  assumes "installed b faqItems" "a < length faqItems" "a \<noteq> b"
    "is_open (faqItems ! a)" "\<not> is_open (faqItems ! b)"
  shows "\<not> is_open (faq_click b faqItems ! a) \<and> is_open (faq_click b faqItems ! b)"
  using assms by (simp add: faq_click_is_open installed_def)

text \<open>
  Claim C1. At most one panel is open after every activation, through a click or
  through \<open>toggleFaq\<close>. The click listener keeps this (lemmas
  \<open>faq_click_at_most_one_open\<close>, \<open>run_clicks_at_most_one_open\<close> and
  \<open>faq_click_opens_closed\<close> above), but \<open>toggleFaq\<close> closes no other panel: on a
  page of two panels, once a click has opened the first, \<open>toggleFaq\<close> on the button of
  the second leaves both open, where a click on the second would have closed the first.
\<close>

theorem toggleFaq_opens_second_panel:
  "map is_open (run [Click 0] (initFaqAccordions two_panels)) = [True, False]
   \<and> map is_open (run [Click 0, ToggleFaq 1] (initFaqAccordions two_panels)) = [True, True]
   \<and> open_count (run [Click 0, ToggleFaq 1] (initFaqAccordions two_panels)) = 2
   \<and> map is_open (run [Click 0, Click 1] (initFaqAccordions two_panels)) = [False, True]"
  by (simp add: run_def two_panels_def initFaqAccordions_def faq_click_def toggleFaq_def
      open_count_def close_other_def enumerate_eq_zip Let_def upt_rec)

theorem toggleFaq_opens_second_panel_witness:
  "1 < open_count (run [Click 0, ToggleFaq 1] (initFaqAccordions two_panels))"
  using toggleFaq_opens_second_panel by simp

text \<open>
  Claim C2, as stated, says that a toggle changes no panel of another group. The click
  listener runs over every \<^verbatim>\<open>.faq-item\<close> of the document, so it does: with an open
  panel in container 1, a click on the panel in container 2 closes the former and sets
  its question's \<^verbatim>\<open>aria-expanded\<close> to "false".
\<close>

theorem faq_click_closes_across_containers:
  "container (two_groups ! 0) \<noteq> container (two_groups ! 1)
   \<and> is_open (two_groups ! 0) \<and> aria_expanded (two_groups ! 0) = Some (js ''true'')
   \<and> is_open (faq_click 1 two_groups ! 0) = False
   \<and> aria_expanded (faq_click 1 two_groups ! 0) = Some (js ''false'')"
  by (simp add: two_groups_def faq_click_def close_other_def enumerate_eq_zip Let_def upt_rec js_def)

lemma toggleFaq_nth_other:
  "j \<noteq> i \<Longrightarrow> toggleFaq i faqItems ! j = faqItems ! j"
  by (simp add: toggleFaq_def Let_def)

text \<open>
  Claim C2, amended. The panels of the document form one group, whatever container each
  sits in. A click on the question of panel \<open>i\<close> leaves every other panel closed: one
  that was closed is unchanged, one that was open loses the \<^verbatim>\<open>open\<close> class and its
  question, if it has one, gets \<^verbatim>\<open>aria-expanded\<close> "false". \<open>toggleFaq\<close> changes no
  panel but its own.
\<close>

theorem faq_click_page_wide_group:
  assumes "installed i faqItems" and "j < length faqItems" and "j \<noteq> i"
  shows "is_open (faq_click i faqItems ! j) = False
         \<and> (\<not> is_open (faqItems ! j) \<longrightarrow> faq_click i faqItems ! j = faqItems ! j)
         \<and> (is_open (faqItems ! j) \<longrightarrow>
              faq_click i faqItems ! j =
                (faqItems ! j)\<lparr>is_open := False,
                   aria_expanded := (if has_question (faqItems ! j) then Some (js ''false'')
                                     else aria_expanded (faqItems ! j))\<rparr>)
         \<and> toggleFaq i faqItems ! j = faqItems ! j"
  using assms by (simp add: faq_click_nth_other close_other_def toggleFaq_nth_other)

theorem faq_click_page_wide_group_witness:
  "installed 1 two_groups \<and> 0 < length two_groups \<and> (0::nat) \<noteq> 1
   \<and> container (two_groups ! 0) \<noteq> container (two_groups ! 1)
   \<and> is_open (two_groups ! 0)
   \<and> is_open (faq_click 1 two_groups ! 0) = False
   \<and> toggleFaq 1 two_groups ! 0 = two_groups ! 0"
proof -
  have a: "installed 1 two_groups" "0 < length two_groups" "(0::nat) \<noteq> 1"
    by (simp_all add: installed_def two_groups_def)
  have b: "container (two_groups ! 0) \<noteq> container (two_groups ! 1)" "is_open (two_groups ! 0)"
    by (simp_all add: two_groups_def)
  from faq_click_page_wide_group [OF a] a b show ?thesis by blast
qed

end
